theory Spec2Isabelle
  imports Complex_Main
begin

section \<open>JavaScript strings\<close>

text \<open>
  A JavaScript string is a sequence of UTF-16 code units. A code unit is modelled by its
  number; a string is the list of its code units. Literals are written with \<open>js\<close>,
  which maps every character of an Isabelle string to its code.
\<close>

type_synonym code_unit = nat
type_synonym js_string = "code_unit list"

definition js :: "string \<Rightarrow> js_string" where
  "js s = map of_char s"

text \<open>
  \<^verbatim>\<open>String.prototype.trim\<close> removes white space and line terminators from both ends:
  TAB, LF, VT, FF, CR, SP, NBSP, the Unicode space separators, LS, PS and ZWNBSP.
\<close>

definition is_white_space :: "code_unit \<Rightarrow> bool" where
  "is_white_space c =
     (c = 0x9 \<or> c = 0xA \<or> c = 0xB \<or> c = 0xC \<or> c = 0xD \<or> c = 0x20 \<or> c = 0xA0 \<or>
      c = 0x1680 \<or> (0x2000 \<le> c \<and> c \<le> 0x200A) \<or> c = 0x2028 \<or> c = 0x2029 \<or>
      c = 0x202F \<or> c = 0x205F \<or> c = 0x3000 \<or> c = 0xFEFF)"

definition trim :: "js_string \<Rightarrow> js_string" where
  "trim s = rev (dropWhile is_white_space (rev (dropWhile is_white_space s)))"

text \<open>\<^verbatim>\<open>String.prototype.startsWith\<close>.\<close>

definition startsWith :: "js_string \<Rightarrow> js_string \<Rightarrow> bool" where
  "startsWith s p = (take (length p) s = p)"

text \<open>
  The character class \<^verbatim>\<open>[a-z0-9]\<close> under the flag \<^verbatim>\<open>i\<close> (and without \<^verbatim>\<open>u\<close>): the ASCII
  letters of both cases and the ASCII digits. Without \<^verbatim>\<open>u\<close>, case folding never maps a
  code unit from 128 on to an ASCII one, so no other code unit belongs to the class.
\<close>

definition is_alnum :: "code_unit \<Rightarrow> bool" where
  "is_alnum c = ((0x61 \<le> c \<and> c \<le> 0x7A) \<or> (0x41 \<le> c \<and> c \<le> 0x5A) \<or> (0x30 \<le> c \<and> c \<le> 0x39))"

definition hyphen :: code_unit where
  "hyphen = 0x2D"

text \<open>
  \<^verbatim>\<open>s.replace(/[^a-z0-9]+/gi, "-")\<close>: the string is scanned from the left; a code unit of
  the class is kept, and a code unit outside it starts a match, which the greedy \<^verbatim>\<open>+\<close>
  extends over all the following code units outside the class. The whole match is
  replaced by one \<^verbatim>\<open>-\<close>, and the scan resumes after it.
\<close>

function replace_non_alnum :: "js_string \<Rightarrow> js_string" where
  "replace_non_alnum [] = []"
| "replace_non_alnum (c # cs) =
     (if is_alnum c then c # replace_non_alnum cs
      else hyphen # replace_non_alnum (dropWhile (\<lambda>x. \<not> is_alnum x) cs))"
  by pat_completeness auto
termination
  by (relation "measure length") (auto simp: length_dropWhile_le less_Suc_eq_le)

text \<open>
  \<^verbatim>\<open>String.prototype.toLowerCase\<close> on a string of ASCII code units: the letters A to Z
  move to a to z, every other ASCII code unit stays. \<open>handleDownload\<close> applies it to the
  result of \<open>replace_non_alnum\<close> only, which holds nothing but ASCII letters, digits and
  \<^verbatim>\<open>-\<close> (lemma \<open>replace_non_alnum_chars\<close>).
\<close>

definition lower_unit :: "code_unit \<Rightarrow> code_unit" where
  "lower_unit c = (if 0x41 \<le> c \<and> c \<le> 0x5A then c + 0x20 else c)"

definition toLowerCase :: "js_string \<Rightarrow> js_string" where
  "toLowerCase s = map lower_unit s"

text \<open>
  The expression of line 139 of the page,
  \<^verbatim>\<open>storyIdea.replace(/[^a-z0-9]+/gi, "-").toLowerCase() || "comic"\<close>; the empty string is
  the only falsy string.
\<close>

definition safeName :: "js_string \<Rightarrow> js_string" where
  "safeName idea =
     (let slug = toLowerCase (replace_non_alnum idea)
      in if slug = [] then js ''comic'' else slug)"

section \<open>Data model\<close>

text \<open>
  Modelled from the spec: the type of a page (section 3, "Page"), whose declaration is in
  the API module and not in the page's file: a page number, an image reference and an
  optional caption. The page's file reads all three (lines 64, 277 and 297).
\<close>

record page =
  pageNumber :: int
  imageUrl :: js_string
  title :: "js_string option"

text \<open>
  The number of pages asked for, \<^verbatim>\<open>1 | 2\<close> (line 53), and the session. The type
  \<^verbatim>\<open>ComicSessionData\<close> is declared with the application context; its fields are those of
  the object literal of lines 83 to 90, with \<^verbatim>\<open>id\<close> called \<open>session_id\<close> here.
\<close>

datatype page_count = One | Two

record comic_session =
  session_id :: js_string
  storyIdea :: js_string
  pagesRequested :: page_count
  pages :: "page list"
  gradientFrom :: js_string
  gradientTo :: js_string

datatype error = GenerationError | TypeError

text \<open>The object handed to \<^verbatim>\<open>JSON.stringify\<close> and the blob built from its text.\<close>

record export_object =
  story :: js_string
  story_pages :: "page list"

record blob =
  blob_parts :: "js_string list"
  blob_type :: js_string

text \<open>
  The calls that leave the component, in the order they are made: to the generator, to the
  browser (\<^verbatim>\<open>URL\<close>, the anchor element, the console) and to the application context.
  \<open>CreateObjectURL b u\<close> is the call \<^verbatim>\<open>URL.createObjectURL(b)\<close> that returned \<open>u\<close>;
  \<open>LinkClick h d\<close> is the click on an anchor with \<^verbatim>\<open>href\<close> \<open>h\<close> and \<^verbatim>\<open>download\<close> \<open>d\<close>.
\<close>

datatype event =
    GenerateComic js_string page_count
  | RevokeObjectURL js_string
  | SetComicSession comic_session
  | AddToComicHistory js_string
  | ConsoleError error
  | CreateObjectURL blob js_string
  | LinkClick js_string js_string

text \<open>
  A call of \<open>handleGenerate\<close> that awaits the generator. The function is a closure of the
  render in which it was created, so what it reads after the \<^verbatim>\<open>await\<close> are the values of
  that render: its own \<open>story\<close> and \<open>count\<close>, and the \<open>comicSession\<close> of line 51.
\<close>

record pending =
  p_story :: js_string
  p_count :: page_count
  p_comicSession :: "comic_session option"

text \<open>
  Modelled from the spec: the application context, whose module is not part of the page's
  file. Its \<^verbatim>\<open>setComicSession\<close> stores the session it is given and its
  \<^verbatim>\<open>addToComicHistory\<close> appends the prompt to a log (section 6, "Session holder" and
  "History collaborator"): these are the fields \<open>comicSession\<close> and \<open>comicHistory\<close> of
  the state below. The calls themselves are in the page's file and are logged in
  \<open>effects\<close>.

  The other fields are the five state variables of the component (lines 52 to 56; the two
  that share a name with a field of the session carry the prefix \<open>st_\<close>), the calls in
  flight and the log of the calls made.
\<close>

record comic_page =
  st_storyIdea :: js_string
  st_pagesRequested :: page_count
  isGenerating :: bool
  isDialogOpen :: bool
  activePageIndex :: int
  comicSession :: "comic_session option"
  comicHistory :: "js_string list"
  inflight :: "pending list"
  effects :: "event list"

section \<open>The gradient palette\<close>

definition gradientPalette :: "(js_string \<times> js_string) list" where
  "gradientPalette =
     [(js ''#fddb92'', js ''#d1fdff''),
      (js ''#f6d365'', js ''#fda085''),
      (js ''#a1c4fd'', js ''#c2e9fb''),
      (js ''#ffecd2'', js ''#fcb69f''),
      (js ''#fccb90'', js ''#d57eeb''),
      (js ''#f9d423'', js ''#ff4e50'')]"

text \<open>
  The operator \<^verbatim>\<open>%\<close> of JavaScript on integral numbers: the remainder has the sign of the
  dividend.
\<close>

definition js_rem :: "int \<Rightarrow> int \<Rightarrow> int" where
  "js_rem a b = sgn a * (\<bar>a\<bar> mod \<bar>b\<bar>)"

text \<open>
  \<open>pickGradient\<close> on an integral index; its only call (line 79) passes an index from 0
  to 5. Reading the array at a negative position gives \<^verbatim>\<open>undefined\<close>, and reading
  \<^verbatim>\<open>.from\<close> of it throws a \<^verbatim>\<open>TypeError\<close>.
\<close>

definition pickGradient :: "int \<Rightarrow> error + (js_string \<times> js_string)" where
  "pickGradient index =
     (let k = js_rem index (int (length gradientPalette))
      in if 0 \<le> k \<and> nat k < length gradientPalette
         then Inr (gradientPalette ! nat k)
         else Inl TypeError)"

section \<open>The handlers of the page\<close>

definition emit :: "event list \<Rightarrow> comic_page \<Rightarrow> comic_page" where
  "emit es st = st\<lparr>effects := effects st @ es\<rparr>"

text \<open>\<open>releaseSessionResources\<close> (lines 61 to 68): the revocations it makes, in order.\<close>

definition releaseSessionResources :: "comic_session option \<Rightarrow> event list" where
  "releaseSessionResources v =
     (case v of
        None \<Rightarrow> []
      | Some s \<Rightarrow>
          map RevokeObjectURL
            (filter (\<lambda>u. startsWith u (js ''blob:'')) (map imageUrl (pages s))))"

text \<open>The decimal digits of a number, as the template \<^verbatim>\<open>`${Date.now()}`\<close> writes it.\<close>

fun decimal_nat :: "nat \<Rightarrow> js_string" where
  "decimal_nat n = (if n < 10 then [0x30 + n] else decimal_nat (n div 10) @ [0x30 + n mod 10])"

definition decimal :: "int \<Rightarrow> js_string" where
  "decimal i = (if i < 0 then hyphen # decimal_nat (nat (- i)) else decimal_nat (nat i))"

text \<open>
  \<open>handleGenerate\<close> up to its \<^verbatim>\<open>await\<close> (lines 70 to 77): \<open>idea\<close> and \<open>pageCount\<close> are the
  optional arguments.
\<close>

definition handleGenerate :: "js_string option \<Rightarrow> page_count option \<Rightarrow> comic_page \<Rightarrow> comic_page" where
  "handleGenerate idea pageCount st =
     (let story = trim (case idea of None \<Rightarrow> st_storyIdea st | Some i \<Rightarrow> i);
          count = (case pageCount of None \<Rightarrow> st_pagesRequested st | Some c \<Rightarrow> c)
      in if story = [] then st
         else st\<lparr>isGenerating := True,
                 inflight := inflight st @
                   [\<lparr>p_story = story, p_count = count, p_comicSession = comicSession st\<rparr>],
                 effects := effects st @ [GenerateComic story count]\<rparr>)"

text \<open>
  The rest of \<open>handleGenerate\<close> (lines 77 to 100), run when the generator has answered
  the call \<open>p\<close>: \<open>result\<close> is the array of pages or the error of the rejected promise,
  \<open>now\<close> the value of \<^verbatim>\<open>Date.now()\<close> and \<open>rnd\<close> that of \<^verbatim>\<open>Math.random()\<close>. An exception
  thrown inside \<^verbatim>\<open>try\<close> is caught and logged; \<^verbatim>\<open>finally\<close> clears the busy flag.
\<close>

definition failed :: "error \<Rightarrow> comic_page \<Rightarrow> comic_page" where
  "failed e st = emit [ConsoleError e] st"

definition handleGenerate_resume ::
  "pending \<Rightarrow> error + page list \<Rightarrow> int \<Rightarrow> real \<Rightarrow> comic_page \<Rightarrow> comic_page" where
  "handleGenerate_resume p result now rnd st =
     (let st' =
        (case result of
           Inl e \<Rightarrow> failed e st
         | Inr comic \<Rightarrow>
             (let gradientIndex = \<lfloor>rnd * real (length gradientPalette)\<rfloor>
              in case pickGradient gradientIndex of
                   Inl e \<Rightarrow> failed e st
                 | Inr (from, to) \<Rightarrow>
                     (let released =
                            (case p_comicSession p of
                               None \<Rightarrow> []
                             | Some old \<Rightarrow> releaseSessionResources (Some old));
                          newSession =
                            \<lparr>session_id = decimal now,
                             storyIdea = p_story p,
                             pagesRequested = p_count p,
                             pages = comic,
                             gradientFrom = from,
                             gradientTo = to\<rparr>
                      in (emit (released @
                                [SetComicSession newSession, AddToComicHistory (p_story p)]) st)
                           \<lparr>comicSession := Some newSession,
                            comicHistory := comicHistory st @ [p_story p],
                            st_storyIdea := [],
                            activePageIndex := 0\<rparr>)))
      in st'\<lparr>isGenerating := False\<rparr>)"

text \<open>The effect of lines 103 to 112.\<close>

definition useEffect_body :: "comic_page \<Rightarrow> comic_page" where
  "useEffect_body st =
     (case comicSession st of
        None \<Rightarrow> st\<lparr>isDialogOpen := False\<rparr>
      | Some s \<Rightarrow>
          if activePageIndex st > int (length (pages s)) - 1
          then st\<lparr>activePageIndex := 0\<rparr>
          else st)"

text \<open>
  \<open>handleDownload\<close> (lines 127 to 144). \<^verbatim>\<open>JSON.stringify\<close> is the platform's: it is the
  parameter \<open>stringify\<close>, applied to the object and to the indentation. \<open>url\<close> is what
  \<^verbatim>\<open>URL.createObjectURL\<close> returns.
\<close>

definition handleDownload ::
  "(export_object \<Rightarrow> nat \<Rightarrow> js_string) \<Rightarrow> js_string \<Rightarrow> comic_page \<Rightarrow> comic_page" where
  "handleDownload stringify url st =
     (case comicSession st of
        None \<Rightarrow> st
      | Some s \<Rightarrow>
          if pages s = [] then st
          else
            (let b = \<lparr>blob_parts = [stringify \<lparr>story = storyIdea s, story_pages = pages s\<rparr> 2],
                      blob_type = js ''application/json''\<rparr>
             in emit [CreateObjectURL b url,
                      LinkClick url (safeName (storyIdea s) @ js ''.json''),
                      RevokeObjectURL url] st))"

text \<open>\<open>openViewer\<close> (lines 146 to 150) and \<open>handleViewerChange\<close> (lines 152 to 161).\<close>

definition openViewer :: "int \<Rightarrow> comic_page \<Rightarrow> comic_page" where
  "openViewer index st =
     (case comicSession st of
        None \<Rightarrow> st
      | Some s \<Rightarrow> st\<lparr>activePageIndex := index, isDialogOpen := True\<rparr>)"

datatype direction = Prev | Next

definition handleViewerChange :: "direction \<Rightarrow> comic_page \<Rightarrow> comic_page" where
  "handleViewerChange d st =
     (case comicSession st of
        None \<Rightarrow> st
      | Some s \<Rightarrow>
          (let prev = activePageIndex st;
               total = int (length (pages s))
           in st\<lparr>activePageIndex :=
                   (case d of
                      Prev \<Rightarrow> if prev = 0 then total - 1 else prev - 1
                    | Next \<Rightarrow> if prev = total - 1 then 0 else prev + 1)\<rparr>))"

section \<open>The rendered page\<close>

text \<open>
  What the user and the generator can do to the page, read off the elements the component
  renders (lines 163 to 419): each event names the handler the element runs, and is
  possible only while the element is rendered and enabled.
\<close>

datatype ui_event =
    ChangeText js_string
  | ClickExample nat
  | ClickQuickPrompt nat
  | ClickPageCount page_count
  | ClickGenerate
  | ClickSessionCard
  | ClickPagePreview nat
  | ClickExport js_string
  | ClickViewer direction
  | DialogOpenChange bool
  | Settled nat "error + page list" int real
  | ContextSession "comic_session option"

text \<open>The \<^verbatim>\<open>open\<close> property of the dialog (line 365).\<close>

definition dialog_open :: "comic_page \<Rightarrow> bool" where
  "dialog_open st = (isDialogOpen st \<and> comicSession st \<noteq> None)"

text \<open>
  The previous and next buttons (lines 389 to 408) are inside the dialog, under the
  conditions of line 367 (the session has a page at the active index) and of line 389.
\<close>

definition viewer_buttons :: "comic_page \<Rightarrow> bool" where
  "viewer_buttons st =
     (case comicSession st of
        None \<Rightarrow> False
      | Some s \<Rightarrow>
          isDialogOpen st \<and> 0 \<le> activePageIndex st \<and>
          activePageIndex st < int (length (pages s)) \<and> 1 < length (pages s))"

text \<open>
  \<open>examples\<close> is the list returned by \<^verbatim>\<open>getComicExamples()\<close>. \<open>ClickExample i\<close> is the
  \<open>i\<close>-th of the three prompts under the text area (lines 320 to 329),
  \<open>ClickQuickPrompt i\<close> the \<open>i\<close>-th of the two of the spotlight card (lines 239 to 248;
  the card is always among the two cards shown), \<open>ClickGenerate\<close> the button of lines
  343 to 360 with its \<^verbatim>\<open>disabled\<close> condition. \<open>Settled k result now rnd\<close> is the answer of
  the generator to the \<open>k\<close>-th call in flight. The session lives in the application
  context, whose setter every consumer of the context shares: \<open>ContextSession v\<close> is a
  call of that setter from outside the page.
\<close>

definition fire ::
  "js_string list \<Rightarrow> (export_object \<Rightarrow> nat \<Rightarrow> js_string) \<Rightarrow> ui_event \<Rightarrow> comic_page \<Rightarrow>
   comic_page option" where
  "fire examples stringify ev st =
     (case ev of
        ChangeText v \<Rightarrow> Some (st\<lparr>st_storyIdea := v\<rparr>)
      | ClickExample i \<Rightarrow>
          if i < length (take 3 examples) then Some (st\<lparr>st_storyIdea := examples ! i\<rparr>)
          else None
      | ClickQuickPrompt i \<Rightarrow>
          if i < length (take 2 examples)
          then Some (handleGenerate (Some (examples ! i)) None st)
          else None
      | ClickPageCount c \<Rightarrow> Some (st\<lparr>st_pagesRequested := c\<rparr>)
      | ClickGenerate \<Rightarrow>
          if isGenerating st \<or> trim (st_storyIdea st) = [] then None
          else Some (handleGenerate None None st)
      | ClickSessionCard \<Rightarrow>
          (case comicSession st of
             None \<Rightarrow> None
           | Some s \<Rightarrow> Some (openViewer 0 st))
      | ClickPagePreview k \<Rightarrow>
          (case comicSession st of
             None \<Rightarrow> None
           | Some s \<Rightarrow>
               if k < length (pages s)
               then Some (openViewer (pageNumber (pages s ! k) - 1) st)
               else None)
      | ClickExport url \<Rightarrow>
          (case comicSession st of
             None \<Rightarrow> None
           | Some s \<Rightarrow>
               if pages s = [] then None else Some (handleDownload stringify url st))
      | ClickViewer d \<Rightarrow>
          if viewer_buttons st then Some (handleViewerChange d st) else None
      | DialogOpenChange b \<Rightarrow> Some (st\<lparr>isDialogOpen := b\<rparr>)
      | Settled k result now rnd \<Rightarrow>
          if k < length (inflight st)
          then Some (handleGenerate_resume (inflight st ! k) result now rnd
                       (st\<lparr>inflight := take k (inflight st) @ drop (Suc k) (inflight st)\<rparr>))
          else None
      | ContextSession v \<Rightarrow> Some (st\<lparr>comicSession := v\<rparr>))"

text \<open>
  After the state has changed the component renders again, and the effect runs when one
  of its dependencies (line 112) has changed. A second run after the effect's own change
  of the index finds nothing to do (lemma \<open>useEffect_body_idem\<close>).
\<close>

definition commit :: "comic_page \<Rightarrow> comic_page \<Rightarrow> comic_page" where
  "commit old new =
     (if comicSession new = comicSession old \<and> activePageIndex new = activePageIndex old
      then new else useEffect_body new)"

definition step ::
  "js_string list \<Rightarrow> (export_object \<Rightarrow> nat \<Rightarrow> js_string) \<Rightarrow> ui_event \<Rightarrow> comic_page \<Rightarrow>
   comic_page option" where
  "step examples stringify ev st = map_option (commit st) (fire examples stringify ev st)"

fun run ::
  "js_string list \<Rightarrow> (export_object \<Rightarrow> nat \<Rightarrow> js_string) \<Rightarrow> ui_event list \<Rightarrow> comic_page \<Rightarrow>
   comic_page option" where
  "run examples stringify [] st = Some st"
| "run examples stringify (ev # evs) st =
     (case step examples stringify ev st of
        None \<Rightarrow> None
      | Some st' \<Rightarrow> run examples stringify evs st')"

text \<open>
  The component when it is mounted (lines 52 to 56), over the session and the history the
  context holds at that moment. The effect's first run changes nothing there
  (lemma \<open>useEffect_body_mount\<close>).
\<close>

definition mount :: "comic_session option \<Rightarrow> js_string list \<Rightarrow> comic_page" where
  "mount session history =
     \<lparr>st_storyIdea = [], st_pagesRequested = One, isGenerating = False,
      isDialogOpen = False, activePageIndex = 0, comicSession = session,
      comicHistory = history, inflight = [], effects = []\<rparr>"

section \<open>The pages of a session and the index of the viewer\<close>

text \<open>
  The specification takes the page numbers to be the positions in the sequence, counted
  from 1 (section 3, "Page"). \<open>pages_numbered\<close> is the part of this the viewer relies on,
  since a preview opens the viewer at the page number minus one (line 277): no page
  number is below 1. \<open>event_ok\<close> asks it of the pages that reach the page from outside.
\<close>

definition pages_numbered :: "page list \<Rightarrow> bool" where
  "pages_numbered ps = list_all (\<lambda>p. 1 \<le> pageNumber p) ps"

definition session_ok :: "comic_session option \<Rightarrow> bool" where
  "session_ok v = (case v of None \<Rightarrow> True | Some s \<Rightarrow> pages_numbered (pages s))"

fun event_ok :: "ui_event \<Rightarrow> bool" where
  "event_ok (Settled k (Inr comic) now rnd) = pages_numbered comic"
| "event_ok (ContextSession v) = session_ok v"
| "event_ok ev = True"

definition index_in_range :: "comic_page \<Rightarrow> bool" where
  "index_in_range st =
     (case comicSession st of
        None \<Rightarrow> True
      | Some s \<Rightarrow>
          pages s = [] \<or>
          (0 \<le> activePageIndex st \<and> activePageIndex st \<le> int (length (pages s)) - 1))"

definition viewer_inv :: "comic_page \<Rightarrow> bool" where
  "viewer_inv st =
     (0 \<le> activePageIndex st \<and> session_ok (comicSession st) \<and> index_in_range st)"

section \<open>The slug as the specification words it\<close>

text \<open>
  The specification describes the file name as the prompt in lower case with every run of
  non-alphanumeric characters collapsed to a single separator. \<open>slugify_spec\<close> follows
  these words, not the code: every code unit is mapped on its own (a letter or digit to
  its lower case, anything else to the separator), then adjacent separators are merged.
\<close>

definition slug_unit :: "code_unit \<Rightarrow> code_unit" where
  "slug_unit c = (if is_alnum c then lower_unit c else hyphen)"

fun collapse :: "js_string \<Rightarrow> js_string" where
  "collapse (a # b # cs) =
     (if a = hyphen \<and> b = hyphen then collapse (b # cs) else a # collapse (b # cs))"
| "collapse cs = cs"

definition slugify_spec :: "js_string \<Rightarrow> js_string" where
  "slugify_spec s = collapse (map slug_unit s)"

section \<open>Reading the log of calls\<close>

fun download_names :: "event list \<Rightarrow> js_string list" where
  "download_names [] = []"
| "download_names (LinkClick h d # es) = d # download_names es"
| "download_names (e # es) = download_names es"

fun generator_calls :: "event list \<Rightarrow> (js_string \<times> page_count) list" where
  "generator_calls [] = []"
| "generator_calls (GenerateComic s c # es) = (s, c) # generator_calls es"
| "generator_calls (e # es) = generator_calls es"

fun history_calls :: "event list \<Rightarrow> js_string list" where
  "history_calls [] = []"
| "history_calls (AddToComicHistory s # es) = s # history_calls es"
| "history_calls (e # es) = history_calls es"

fun revoked :: "event list \<Rightarrow> js_string list" where
  "revoked [] = []"
| "revoked (RevokeObjectURL u # es) = u # revoked es"
| "revoked (e # es) = revoked es"

section \<open>Sample values\<close>

definition sample_page :: "int \<Rightarrow> string \<Rightarrow> page" where
  "sample_page n url = \<lparr>pageNumber = n, imageUrl = js url, title = None\<rparr>"

definition sample_session :: "string \<Rightarrow> page list \<Rightarrow> comic_session" where
  "sample_session idea ps =
     \<lparr>session_id = js ''1'', storyIdea = js idea, pagesRequested = One, pages = ps,
      gradientFrom = js ''#fddb92'', gradientTo = js ''#d1fdff''\<rparr>"

definition sample_stringify :: "export_object \<Rightarrow> nat \<Rightarrow> js_string" where
  "sample_stringify obj indent = story obj"

definition sample_comic :: "nat \<Rightarrow> page list" where
  "sample_comic n = map (\<lambda>k. sample_page (int k) ''blob:page'') [1..<Suc n]"


definition sample_examples :: "js_string list" where
  "sample_examples = [js ''A seed in orbit'']"

definition sample_state :: "string \<Rightarrow> page list \<Rightarrow> comic_page" where
  "sample_state idea ps = mount (Some (sample_session idea ps)) []"

section \<open>Auxiliary facts\<close>

lemma useEffect_body_idem: "useEffect_body (useEffect_body st) = useEffect_body st"
  by (cases "comicSession st") (auto simp: useEffect_body_def)

lemma useEffect_body_mount: "useEffect_body (mount session history) = mount session history"
  by (cases session) (auto simp: useEffect_body_def mount_def)

lemma replace_non_alnum_chars:
  "c \<in> set (replace_non_alnum s) \<Longrightarrow> is_alnum c \<or> c = hyphen"
  by (induction s rule: replace_non_alnum.induct) (auto split: if_splits dest: set_dropWhileD)


subsection \<open>The palette and the continuation of \<open>handleGenerate\<close>\<close>

lemma length_gradientPalette: "length gradientPalette = 6"
  by (simp add: gradientPalette_def)

lemma pickGradient_nonneg:
  assumes "0 \<le> index"
  shows "pickGradient index = Inr (gradientPalette ! (nat index mod length gradientPalette))"
proof -
  have "js_rem index 6 = index mod 6"
    using assms by (simp add: js_rem_def sgn_if)
  moreover have "nat (index mod 6) = nat index mod 6"
    using assms by (simp add: nat_mod_distrib)
  moreover have "0 \<le> index mod 6" "nat (index mod 6) < 6"
    by simp_all
  ultimately show ?thesis
    by (simp add: pickGradient_def length_gradientPalette)
qed

lemma random_index_range:
  assumes "0 \<le> rnd" and "rnd < 1"
  shows "0 \<le> \<lfloor>rnd * real (length gradientPalette)\<rfloor> \<and> \<lfloor>rnd * real (length gradientPalette)\<rfloor> < 6"
proof -
  have "0 \<le> rnd * 6" "rnd * 6 < 6" using assms by simp_all
  then have "0 \<le> \<lfloor>rnd * 6\<rfloor>" "\<lfloor>rnd * 6\<rfloor> < 6"
    by (simp_all add: floor_less_iff)
  then show ?thesis by (simp add: length_gradientPalette)
qed

lemma pickGradient_random:
  assumes "0 \<le> rnd" and "rnd < 1"
  shows "\<exists>g. pickGradient \<lfloor>rnd * real (length gradientPalette)\<rfloor> = Inr g \<and> g \<in> set gradientPalette"
proof -
  let ?i = "\<lfloor>rnd * real (length gradientPalette)\<rfloor>"
  from random_index_range [OF assms] have r: "0 \<le> ?i" "?i < 6" by simp_all
  have "nat ?i mod length gradientPalette < length gradientPalette"
    by (simp add: length_gradientPalette)
  then have "gradientPalette ! (nat ?i mod length gradientPalette) \<in> set gradientPalette"
    by (rule nth_mem)
  with pickGradient_nonneg [OF r(1)] show ?thesis by simp
qed

lemma resume_success:
  assumes "0 \<le> rnd" and "rnd < 1"
  shows "\<exists>g \<in> set gradientPalette.
     handleGenerate_resume p (Inr comic) now rnd st =
       st\<lparr>isGenerating := False,
          comicSession := Some \<lparr>session_id = decimal now, storyIdea = p_story p,
            pagesRequested = p_count p, pages = comic, gradientFrom = fst g, gradientTo = snd g\<rparr>,
          comicHistory := comicHistory st @ [p_story p],
          st_storyIdea := [],
          activePageIndex := 0,
          effects := effects st @ releaseSessionResources (p_comicSession p) @
            [SetComicSession \<lparr>session_id = decimal now, storyIdea = p_story p,
               pagesRequested = p_count p, pages = comic, gradientFrom = fst g, gradientTo = snd g\<rparr>,
             AddToComicHistory (p_story p)]\<rparr>"
proof -
  from pickGradient_random [OF assms] obtain g where
    g: "pickGradient \<lfloor>rnd * real (length gradientPalette)\<rfloor> = Inr g" "g \<in> set gradientPalette"
    by blast
  have rel: "(case p_comicSession p of None \<Rightarrow> [] | Some old \<Rightarrow> releaseSessionResources (Some old))
     = releaseSessionResources (p_comicSession p)"
    by (cases "p_comicSession p") (simp_all add: releaseSessionResources_def)
  show ?thesis
    apply (rule bexI [OF _ g(2)])
    unfolding handleGenerate_resume_def Let_def rel
    using g(1) by (cases g) (simp add: emit_def)
qed

text \<open>The definitions a run of the page on concrete values unfolds.\<close>

lemmas eval_defs = step_def fire_def commit_def handleGenerate_def handleGenerate_resume_def
  pickGradient_def js_rem_def gradientPalette_def releaseSessionResources_def startsWith_def
  useEffect_body_def openViewer_def handleViewerChange_def emit_def failed_def mount_def
  sample_examples_def sample_page_def sample_session_def sample_state_def
  trim_def is_white_space_def js_def decimal_def Let_def

subsection \<open>The invariant of the viewer\<close>

lemma viewer_inv_cong:
  "comicSession a = comicSession b \<Longrightarrow> activePageIndex a = activePageIndex b \<Longrightarrow>
   viewer_inv a = viewer_inv b"
  by (cases "comicSession b") (simp_all add: viewer_inv_def index_in_range_def)

lemma useEffect_body_inv:
  "0 \<le> activePageIndex st \<Longrightarrow> session_ok (comicSession st) \<Longrightarrow> viewer_inv (useEffect_body st)"
  by (cases "comicSession st")
     (auto simp: viewer_inv_def index_in_range_def useEffect_body_def session_ok_def)

lemma commit_inv:
  assumes "viewer_inv old" and "0 \<le> activePageIndex new" and "session_ok (comicSession new)"
  shows "viewer_inv (commit old new)"
proof (cases "comicSession new = comicSession old \<and> activePageIndex new = activePageIndex old")
  case True
  then have "viewer_inv new = viewer_inv old" by (intro viewer_inv_cong) simp_all
  with assms(1) True show ?thesis by (simp add: commit_def)
next
  case False
  with useEffect_body_inv [OF assms(2,3)] show ?thesis by (auto simp: commit_def)
qed

lemma handleGenerate_keeps:
  "comicSession (handleGenerate idea pc st) = comicSession st \<and>
   activePageIndex (handleGenerate idea pc st) = activePageIndex st"
  by (simp add: handleGenerate_def Let_def)

lemma handleDownload_keeps:
  "comicSession (handleDownload sf url st) = comicSession st \<and>
   activePageIndex (handleDownload sf url st) = activePageIndex st"
  by (auto simp: handleDownload_def emit_def split: option.splits)

lemma resume_keeps:
  assumes "0 \<le> activePageIndex st" and "session_ok (comicSession st)"
    and "event_ok (Settled k result now rnd)"
  shows "0 \<le> activePageIndex (handleGenerate_resume p result now rnd st) \<and>
         session_ok (comicSession (handleGenerate_resume p result now rnd st))"
proof (cases result)
  case (Inl e)
  with assms show ?thesis
    by (simp add: handleGenerate_resume_def failed_def emit_def)
next
  case (Inr comic)
  with assms(3) have "pages_numbered comic" by simp
  with assms(1,2) Inr show ?thesis
    by (auto simp: handleGenerate_resume_def failed_def emit_def session_ok_def Let_def
        split: sum.splits prod.splits)
qed

lemma pages_numbered_nth: "pages_numbered ps \<Longrightarrow> k < length ps \<Longrightarrow> 1 \<le> pageNumber (ps ! k)"
  by (simp add: pages_numbered_def list_all_length)

lemma fire_keeps:
  assumes "viewer_inv st" and "event_ok ev" and "fire examples stringify ev st = Some new"
  shows "0 \<le> activePageIndex new \<and> session_ok (comicSession new)"
proof -
  from assms(1) have i: "0 \<le> activePageIndex st" and s: "session_ok (comicSession st)"
    by (simp_all add: viewer_inv_def)
  show ?thesis
  proof (cases ev)
    case (Settled k result now rnd)
    with assms(3) obtain st0 p where
      new: "new = handleGenerate_resume p result now rnd st0"
      and "comicSession st0 = comicSession st" "activePageIndex st0 = activePageIndex st"
      by (auto simp: fire_def split: if_splits)
    with i s have "0 \<le> activePageIndex st0" "session_ok (comicSession st0)" by simp_all
    from resume_keeps [OF this] assms(2) Settled new show ?thesis by simp
  next
    case (ClickPagePreview k)
    with assms(3) obtain sess where
      sess: "comicSession st = Some sess" "k < length (pages sess)"
      and new: "new = openViewer (pageNumber (pages sess ! k) - 1) st"
      by (auto simp: fire_def split: option.splits if_splits)
    from s sess have "1 \<le> pageNumber (pages sess ! k)"
      by (simp add: session_ok_def pages_numbered_nth)
    with new sess s show ?thesis by (simp add: openViewer_def)
  next
    case (ClickViewer d)
    with assms(3) have vb: "viewer_buttons st" and new: "new = handleViewerChange d st"
      by (auto simp: fire_def split: if_splits)
    from vb obtain sess where "comicSession st = Some sess" "0 \<le> activePageIndex st"
      "activePageIndex st < int (length (pages sess))"
      by (auto simp: viewer_buttons_def split: option.splits)
    with new s show ?thesis
      by (cases d) (auto simp: handleViewerChange_def Let_def)
  next
    case (ContextSession v)
    with assms(2,3) i show ?thesis by (auto simp: fire_def)
  next
    case ClickSessionCard
    with assms(3) i s show ?thesis
      by (auto simp: fire_def openViewer_def split: option.splits)
  next
    case (ClickQuickPrompt k)
    with assms(3) i s show ?thesis
      by (auto simp: fire_def handleGenerate_keeps split: if_splits)
  next
    case ClickGenerate
    with assms(3) i s show ?thesis
      by (auto simp: fire_def handleGenerate_keeps split: if_splits)
  next
    case (ClickExport url)
    with assms(3) i s show ?thesis
      by (auto simp: fire_def handleDownload_keeps split: option.splits if_splits)
  qed (use assms(3) i s in \<open>auto simp: fire_def split: if_splits\<close>)
qed

lemma step_inv:
  assumes "viewer_inv st" and "event_ok ev" and "step examples stringify ev st = Some st'"
  shows "viewer_inv st'"
proof -
  from assms(3) obtain new where f: "fire examples stringify ev st = Some new"
    and st': "st' = commit st new"
    by (auto simp: step_def)
  from fire_keeps [OF assms(1,2) f] commit_inv [OF assms(1)] st' show ?thesis by simp
qed

lemma run_inv:
  "viewer_inv st \<Longrightarrow> list_all event_ok evs \<Longrightarrow> run examples stringify evs st = Some st' \<Longrightarrow>
   viewer_inv st'"
proof (induction evs arbitrary: st)
  case Nil
  then show ?case by simp
next
  case (Cons ev evs)
  from Cons.prems(3) obtain mid where
    m: "step examples stringify ev st = Some mid" "run examples stringify evs mid = Some st'"
    by (auto split: option.splits)
  from Cons.prems(1,2) m(1) have "viewer_inv mid" by (auto intro: step_inv)
  with Cons.IH [of mid] Cons.prems(2) m(2) show ?case by simp
qed

lemma mount_inv: "session_ok session \<Longrightarrow> viewer_inv (mount session history)"
  by (cases session) (auto simp: viewer_inv_def index_in_range_def mount_def session_ok_def)

subsection \<open>The slug\<close>

lemma slug_unit_alnum: "is_alnum c \<Longrightarrow> slug_unit c \<noteq> hyphen"
  by (auto simp: slug_unit_def is_alnum_def lower_unit_def hyphen_def)

lemma slug_unit_other: "\<not> is_alnum c \<Longrightarrow> slug_unit c = hyphen"
  by (simp add: slug_unit_def)

lemma collapse_skip:
  "collapse (hyphen # map slug_unit cs) =
   collapse (hyphen # map slug_unit (dropWhile (\<lambda>x. \<not> is_alnum x) cs))"
  by (induction cs) (auto simp: slug_unit_other)

lemma collapse_hyphen_stop:
  "collapse (hyphen # map slug_unit (dropWhile (\<lambda>x. \<not> is_alnum x) cs)) =
   hyphen # collapse (map slug_unit (dropWhile (\<lambda>x. \<not> is_alnum x) cs))"
proof (cases "dropWhile (\<lambda>x. \<not> is_alnum x) cs")
  case Nil
  show ?thesis unfolding Nil by simp
next
  case (Cons d ds)
  then have "is_alnum d"
    using hd_dropWhile [of "\<lambda>x. \<not> is_alnum x" cs] by auto
  then show ?thesis unfolding Cons by (simp add: slug_unit_alnum)
qed

lemma collapse_alnum: "is_alnum c \<Longrightarrow> collapse (slug_unit c # xs) = slug_unit c # collapse xs"
  by (cases xs) (auto simp: slug_unit_alnum)

lemma lower_unit_hyphen: "lower_unit hyphen = hyphen"
  by (simp add: lower_unit_def hyphen_def)

lemma replace_refines_slugify: "toLowerCase (replace_non_alnum s) = slugify_spec s"
proof (induction s rule: replace_non_alnum.induct)
  case 1
  show ?case by (simp add: toLowerCase_def slugify_spec_def)
next
  case (2 c cs)
  show ?case
  proof (cases "is_alnum c")
    case True
    with 2 show ?thesis
      by (simp add: toLowerCase_def slugify_spec_def collapse_alnum) (simp add: slug_unit_def)
  next
    case False
    with 2 show ?thesis
      using collapse_skip [of cs] collapse_hyphen_stop [of cs]
      by (simp add: toLowerCase_def slugify_spec_def slug_unit_other lower_unit_hyphen)
  qed
qed

lemma download_names_append: "download_names (xs @ ys) = download_names xs @ download_names ys"
  by (induction xs rule: download_names.induct) auto


section \<open>The export\<close>

text \<open>
  C2, as amended. For every export with at least one page, the name of the downloaded
  file is the slug of the prompt followed by \<^verbatim>\<open>.json\<close>, where the slug is the prompt in
  lower case with every run of non-alphanumeric characters collapsed to one \<^verbatim>\<open>-\<close> (a run
  at the start or at the end of the prompt is collapsed like the others, not removed),
  and the default name \<^verbatim>\<open>comic\<close> stands in when the slug is empty. In particular the
  prompt \<^verbatim>\<open>Tom & Jerry!!\<close> gives \<^verbatim>\<open>tom-jerry-.json\<close>, and the empty prompt gives
  \<^verbatim>\<open>comic.json\<close>.
\<close>

theorem download_name_slug:
  assumes "comicSession st = Some s" and "pages s \<noteq> []"
  shows "download_names (effects (handleDownload stringify url st)) =
           download_names (effects st) @
             [(if slugify_spec (storyIdea s) = [] then js ''comic''
               else slugify_spec (storyIdea s)) @ js ''.json'']
         \<and> (storyIdea s = [] \<longrightarrow>
              download_names (effects (handleDownload stringify url st)) =
                download_names (effects st) @ [js ''comic.json''])"
proof -
  have "download_names (effects (handleDownload stringify url st)) =
          download_names (effects st) @ [safeName (storyIdea s) @ js ''.json'']"
    using assms by (simp add: handleDownload_def emit_def download_names_append)
  moreover have "safeName (storyIdea s) =
      (if slugify_spec (storyIdea s) = [] then js ''comic'' else slugify_spec (storyIdea s))"
    by (simp add: safeName_def replace_refines_slugify)
  ultimately have name: "download_names (effects (handleDownload stringify url st)) =
      download_names (effects st) @
        [(if slugify_spec (storyIdea s) = [] then js ''comic''
          else slugify_spec (storyIdea s)) @ js ''.json'']"
    by simp
  have "js ''comic'' @ js ''.json'' = js ''comic.json''"
    by (simp add: js_def)
  with name have "storyIdea s = [] \<longrightarrow>
      download_names (effects (handleDownload stringify url st)) =
        download_names (effects st) @ [js ''comic.json'']"
    by (simp add: slugify_spec_def)
  with name show ?thesis by simp
qed

theorem download_name_slug_witness:
  "download_names (effects (handleDownload sample_stringify (js ''blob:d'')
      (sample_state ''Tom & Jerry!!'' [sample_page 1 ''https://x/1.png'']))) =
     [js ''tom-jerry-.json'']
   \<and> download_names (effects (handleDownload sample_stringify (js ''blob:d'')
      (sample_state [] [sample_page 1 ''https://x/1.png'']))) =
     [js ''comic.json'']"
proof -
  let ?s = "sample_session ''Tom & Jerry!!'' [sample_page 1 ''https://x/1.png'']"
  let ?st = "sample_state ''Tom & Jerry!!'' [sample_page 1 ''https://x/1.png'']"
  let ?e = "sample_session [] [sample_page 1 ''https://x/1.png'']"
  let ?et = "sample_state [] [sample_page 1 ''https://x/1.png'']"
  have h1: "comicSession ?st = Some ?s"
    by (simp add: sample_state_def mount_def)
  have h2: "pages ?s \<noteq> []"
    by (simp add: sample_session_def)
  have slug: "slugify_spec (storyIdea ?s) = js ''tom-jerry-''"
    by (simp add: sample_session_def slugify_spec_def js_def slug_unit_def is_alnum_def
        lower_unit_def hyphen_def)
  have "effects ?st = []"
    by (simp add: sample_state_def mount_def)
  with download_name_slug [OF h1 h2, of sample_stringify "js ''blob:d''"] slug
  have 1: "download_names (effects (handleDownload sample_stringify (js ''blob:d'') ?st)) =
      [js ''tom-jerry-.json'']"
    by (simp add: js_def)
  have e1: "comicSession ?et = Some ?e"
    by (simp add: sample_state_def mount_def)
  have e2: "pages ?e \<noteq> []"
    by (simp add: sample_session_def)
  have e3: "storyIdea ?e = []"
    by (simp add: sample_session_def js_def)
  from download_name_slug [OF e1 e2, of sample_stringify "js ''blob:d''"] e3
  have "download_names (effects (handleDownload sample_stringify (js ''blob:d'') ?et)) =
      download_names (effects ?et) @ [js ''comic.json'']"
    by blast
  moreover have "effects ?et = []"
    by (simp add: sample_state_def mount_def)
  ultimately
  have 2: "download_names (effects (handleDownload sample_stringify (js ''blob:d'') ?et)) =
      [js ''comic.json'']"
    by simp
  from 1 2 show ?thesis by simp
qed

text \<open>
  The two file names of the specification are not those of the code: the run \<^verbatim>\<open>!!\<close> at
  the end of \<^verbatim>\<open>Tom & Jerry!!\<close> leaves a \<^verbatim>\<open>-\<close> at the end of the slug, and a prompt made of
  punctuation only has the slug \<^verbatim>\<open>-\<close>, which is not empty.
\<close>

theorem download_name_slug_counterexample:
  "download_names (effects (handleDownload sample_stringify (js ''blob:d'')
      (sample_state ''Tom & Jerry!!'' [sample_page 1 ''https://x/1.png'']))) =
     [js ''tom-jerry-.json'']
   \<and> js ''tom-jerry-.json'' \<noteq> js ''tom-jerry.json''
   \<and> download_names (effects (handleDownload sample_stringify (js ''blob:d'')
      (sample_state ''!!!'' [sample_page 1 ''https://x/1.png'']))) =
     [js ''-.json'']
   \<and> js ''-.json'' \<noteq> js ''comic.json''"
  by (simp add: handleDownload_def emit_def sample_state_def mount_def sample_session_def
      sample_page_def safeName_def toLowerCase_def js_def is_alnum_def lower_unit_def hyphen_def)

text \<open>
  C8. An export without a session, or with a session of no page, changes nothing: no
  object URL is created and no download is started. An export with at least one page
  makes exactly three calls: it creates an object URL for a blob of type
  \<^verbatim>\<open>application/json\<close> whose text is \<^verbatim>\<open>JSON.stringify\<close>, with indentation 2, of an object
  whose \<^verbatim>\<open>story\<close> is the session's prompt and whose \<^verbatim>\<open>pages\<close> is the session's whole
  page sequence; it clicks a link to that URL; and it revokes that URL right after.
\<close>

theorem handleDownload_export:
  "(comicSession st = None \<longrightarrow> handleDownload stringify url st = st) \<and>
   (\<forall>s. comicSession st = Some s \<and> pages s = [] \<longrightarrow> handleDownload stringify url st = st) \<and>
   (\<forall>s. comicSession st = Some s \<and> pages s \<noteq> [] \<longrightarrow>
      (\<exists>name. handleDownload stringify url st =
         st\<lparr>effects := effects st @
           [CreateObjectURL
              \<lparr>blob_parts = [stringify \<lparr>story = storyIdea s, story_pages = pages s\<rparr> 2],
               blob_type = js ''application/json''\<rparr> url,
            LinkClick url name,
            RevokeObjectURL url]\<rparr>))"
  by (auto simp: handleDownload_def emit_def)

theorem handleDownload_export_witness:
  "handleDownload sample_stringify (js ''blob:d'') (mount None []) = mount None []
   \<and> handleDownload sample_stringify (js ''blob:d'') (sample_state ''Tom'' []) =
       sample_state ''Tom'' []
   \<and> effects (handleDownload sample_stringify (js ''blob:d'')
        (sample_state ''Tom'' [sample_page 1 ''blob:p1''])) =
       [CreateObjectURL \<lparr>blob_parts = [js ''Tom''], blob_type = js ''application/json''\<rparr>
          (js ''blob:d''),
        LinkClick (js ''blob:d'') (js ''tom.json''),
        RevokeObjectURL (js ''blob:d'')]"
proof -
  let ?u = "js ''blob:d''"
  let ?s0 = "sample_session ''Tom'' []"
  let ?s1 = "sample_session ''Tom'' [sample_page 1 ''blob:p1'']"
  have a: "comicSession (mount None []) = None"
    by (simp add: mount_def)
  have b: "comicSession (sample_state ''Tom'' []) = Some ?s0 \<and> pages ?s0 = []"
    by (simp add: sample_state_def mount_def sample_session_def)
  have c: "comicSession (sample_state ''Tom'' [sample_page 1 ''blob:p1'']) = Some ?s1
           \<and> pages ?s1 \<noteq> []"
    by (simp add: sample_state_def mount_def sample_session_def)
  from handleDownload_export [of "mount None []" sample_stringify ?u] a
  have 1: "handleDownload sample_stringify ?u (mount None []) = mount None []"
    by blast
  from handleDownload_export [of "sample_state ''Tom'' []" sample_stringify ?u] b
  have 2: "handleDownload sample_stringify ?u (sample_state ''Tom'' []) = sample_state ''Tom'' []"
    by blast
  from handleDownload_export [of "sample_state ''Tom'' [sample_page 1 ''blob:p1'']"
      sample_stringify ?u] c
  obtain name where
    "handleDownload sample_stringify ?u (sample_state ''Tom'' [sample_page 1 ''blob:p1'']) =
       (sample_state ''Tom'' [sample_page 1 ''blob:p1''])\<lparr>effects :=
          effects (sample_state ''Tom'' [sample_page 1 ''blob:p1'']) @
          [CreateObjectURL
             \<lparr>blob_parts = [sample_stringify \<lparr>story = storyIdea ?s1, story_pages = pages ?s1\<rparr> 2],
              blob_type = js ''application/json''\<rparr> ?u,
           LinkClick ?u name,
           RevokeObjectURL ?u]\<rparr>"
    by blast
  moreover have "download_names (effects (handleDownload sample_stringify ?u
        (sample_state ''Tom'' [sample_page 1 ''blob:p1'']))) = [js ''tom.json'']"
    by (simp add: handleDownload_def emit_def sample_state_def mount_def sample_session_def
        sample_page_def safeName_def toLowerCase_def js_def is_alnum_def lower_unit_def
        hyphen_def)
  ultimately have 3: "effects (handleDownload sample_stringify ?u
        (sample_state ''Tom'' [sample_page 1 ''blob:p1''])) =
       [CreateObjectURL \<lparr>blob_parts = [js ''Tom''], blob_type = js ''application/json''\<rparr> ?u,
        LinkClick ?u (js ''tom.json''),
        RevokeObjectURL ?u]"
    by (simp add: sample_state_def mount_def sample_session_def sample_stringify_def)
  from 1 2 3 show ?thesis by simp
qed

section \<open>Generation\<close>

text \<open>
  C10. When the prompt (the argument, or the text of the input when there is no
  argument) trims to the empty string, \<open>handleGenerate\<close> returns with the whole state as
  it was: the generator is not called, the busy flag is not set, and the session, the
  history, the input and the viewer are unchanged.
\<close>

theorem handleGenerate_blank_prompt:
  assumes "trim (case idea of None \<Rightarrow> st_storyIdea st | Some i \<Rightarrow> i) = []"
  shows "handleGenerate idea pageCount st = st"
  using assms by (simp add: handleGenerate_def)

theorem handleGenerate_blank_prompt_witness:
  "handleGenerate (Some (js '' '')) (Some Two) (sample_state ''Tom'' []) = sample_state ''Tom'' []
   \<and> handleGenerate None None ((mount None [])\<lparr>st_storyIdea := [0x9, 0xA0, 0x2028]\<rparr>) =
       (mount None [])\<lparr>st_storyIdea := [0x9, 0xA0, 0x2028]\<rparr>"
proof -
  have a: "trim (case Some (js '' '') of
             None \<Rightarrow> st_storyIdea (sample_state ''Tom'' []) | Some i \<Rightarrow> i) = []"
    by (simp add: trim_def js_def is_white_space_def)
  have b: "trim (case None of
             None \<Rightarrow> st_storyIdea ((mount None [])\<lparr>st_storyIdea := [0x9, 0xA0, 0x2028]\<rparr>)
           | Some i \<Rightarrow> i) = []"
    by (simp add: trim_def is_white_space_def)
  from handleGenerate_blank_prompt [OF a] handleGenerate_blank_prompt [OF b]
  show ?thesis by simp
qed

text \<open>
  C4. When the generator fails, the continuation of \<open>handleGenerate\<close> logs the error
  and clears the busy flag, and changes nothing else: the session of before stays, no
  session is installed and nothing is added to the history. The same holds for the page
  as a whole when a call in flight is answered by a failure.
\<close>

theorem generation_failure:
  "handleGenerate_resume p (Inl e) now rnd st =
     st\<lparr>isGenerating := False, effects := effects st @ [ConsoleError e]\<rparr>
   \<and> (k < length (inflight st) \<longrightarrow>
       step examples stringify (Settled k (Inl e) now rnd) st =
         Some (st\<lparr>isGenerating := False,
                  inflight := take k (inflight st) @ drop (Suc k) (inflight st),
                  effects := effects st @ [ConsoleError e]\<rparr>))"
  by (simp add: handleGenerate_resume_def failed_def emit_def step_def fire_def commit_def)

theorem generation_failure_witness:
  "step [] sample_stringify (Settled 0 (Inl GenerationError) 42 (1 / 2))
     (handleGenerate (Some (js ''Tom'')) None (sample_state ''Old'' [sample_page 1 ''blob:a''])) =
   Some ((sample_state ''Old'' [sample_page 1 ''blob:a''])
     \<lparr>isGenerating := False,
      effects := [GenerateComic (js ''Tom'') One, ConsoleError GenerationError]\<rparr>)"
proof -
  let ?st = "handleGenerate (Some (js ''Tom'')) None (sample_state ''Old'' [sample_page 1 ''blob:a''])"
  have eq: "?st = (sample_state ''Old'' [sample_page 1 ''blob:a''])
      \<lparr>isGenerating := True,
       inflight := [\<lparr>p_story = js ''Tom'', p_count = One,
                    p_comicSession = Some (sample_session ''Old'' [sample_page 1 ''blob:a''])\<rparr>],
       effects := [GenerateComic (js ''Tom'') One]\<rparr>"
    by (simp add: handleGenerate_def Let_def sample_state_def mount_def trim_def js_def
        is_white_space_def)
  then have h: "0 < length (inflight ?st)"
    by simp
  from generation_failure [of "inflight ?st ! 0" GenerationError 42 "1 / 2" ?st 0 "[]" sample_stringify] h
  have "step [] sample_stringify (Settled 0 (Inl GenerationError) 42 (1 / 2)) ?st =
          Some (?st\<lparr>isGenerating := False,
                     inflight := take 0 (inflight ?st) @ drop (Suc 0) (inflight ?st),
                     effects := effects ?st @ [ConsoleError GenerationError]\<rparr>)"
    by blast
  then show ?thesis
    unfolding eq by (simp add: sample_state_def mount_def)
qed

text \<open>
  C5. A generation that succeeds installs a session whose pages are exactly the sequence
  the generator returned, whatever number of pages was asked for; that number is the
  argument of the call (or the selected count when there is no argument) and is stored
  in \<open>pagesRequested\<close> as it is.
\<close>

theorem generation_pages:
  assumes "0 \<le> rnd" and "rnd < 1"
    and "trim (case idea of None \<Rightarrow> st_storyIdea st0 | Some i \<Rightarrow> i) \<noteq> []"
  shows "\<exists>p s. inflight (handleGenerate idea pageCount st0) = inflight st0 @ [p]
     \<and> p_count p = (case pageCount of None \<Rightarrow> st_pagesRequested st0 | Some c \<Rightarrow> c)
     \<and> comicSession (handleGenerate_resume p (Inr comic) now rnd st) = Some s
     \<and> pages s = comic
     \<and> length (pages s) = length comic
     \<and> pagesRequested s = p_count p"
proof -
  let ?p = "\<lparr>p_story = trim (case idea of None \<Rightarrow> st_storyIdea st0 | Some i \<Rightarrow> i),
            p_count = (case pageCount of None \<Rightarrow> st_pagesRequested st0 | Some c \<Rightarrow> c),
            p_comicSession = comicSession st0\<rparr>"
  have "inflight (handleGenerate idea pageCount st0) = inflight st0 @ [?p]"
    using assms(3) by (simp add: handleGenerate_def Let_def)
  moreover from resume_success [OF assms(1,2), of ?p comic now st]
  have "\<exists>s. comicSession (handleGenerate_resume ?p (Inr comic) now rnd st) = Some s
      \<and> pages s = comic \<and> pagesRequested s = p_count ?p"
    by auto
  ultimately show ?thesis by auto
qed

theorem generation_pages_witness:
  "\<exists>p s. inflight (handleGenerate (Some (js ''A tomato plant in space'')) (Some Two) (mount None [])) = [p]
     \<and> p_count p = Two
     \<and> comicSession (handleGenerate_resume p (Inr (sample_comic 8)) 42 (1 / 2)
          (handleGenerate (Some (js ''A tomato plant in space'')) (Some Two) (mount None []))) = Some s
     \<and> pages s = sample_comic 8
     \<and> length (pages s) = 8
     \<and> pagesRequested s = Two"
proof -
  have h: "trim (case Some (js ''A tomato plant in space'') of
             None \<Rightarrow> st_storyIdea (mount None []) | Some i \<Rightarrow> i) \<noteq> []"
    by (simp add: trim_def js_def is_white_space_def)
  have l: "length (sample_comic 8) = 8"
    by (simp add: sample_comic_def)
  have r: "(0::real) \<le> 1 / 2" "(1::real) / 2 < 1" by simp_all
  from generation_pages [OF r h, of "Some Two" "sample_comic 8" 42
      "handleGenerate (Some (js ''A tomato plant in space'')) (Some Two) (mount None [])"]
  obtain p s where
    "inflight (handleGenerate (Some (js ''A tomato plant in space'')) (Some Two) (mount None [])) =
       inflight (mount None []) @ [p]"
    "p_count p = (case Some Two of None \<Rightarrow> st_pagesRequested (mount None []) | Some c \<Rightarrow> c)"
    "comicSession (handleGenerate_resume p (Inr (sample_comic 8)) 42 (1 / 2)
       (handleGenerate (Some (js ''A tomato plant in space'')) (Some Two) (mount None []))) = Some s"
    "pages s = sample_comic 8"
    "pagesRequested s = p_count p"
    by blast
  with l show ?thesis
    by (intro exI [of _ p] exI [of _ s]) (simp add: mount_def)
qed



section \<open>The viewer\<close>

text \<open>
  C6. Over a session of \<open>n\<close> pages, \<^verbatim>\<open>next\<close> goes from \<open>n - 1\<close> to 0 and otherwise one up,
  \<^verbatim>\<open>prev\<close> goes from 0 to \<open>n - 1\<close> and otherwise one down, and nothing but the index
  changes. When the viewer is open at a position of the session, this is a move by one
  modulo \<open>n\<close>, and with a single page the state stays as it is.
\<close>

theorem viewer_navigation_cyclic:
  assumes "comicSession st = Some s"
  shows "handleViewerChange Next st =
           st\<lparr>activePageIndex :=
                (if activePageIndex st = int (length (pages s)) - 1 then 0
                 else activePageIndex st + 1)\<rparr>
     \<and> handleViewerChange Prev st =
           st\<lparr>activePageIndex :=
                (if activePageIndex st = 0 then int (length (pages s)) - 1
                 else activePageIndex st - 1)\<rparr>
     \<and> (0 \<le> activePageIndex st \<and> activePageIndex st \<le> int (length (pages s)) - 1 \<longrightarrow>
          activePageIndex (handleViewerChange Next st) =
            (activePageIndex st + 1) mod int (length (pages s))
          \<and> activePageIndex (handleViewerChange Prev st) =
            (activePageIndex st - 1) mod int (length (pages s))
          \<and> (length (pages s) = 1 \<longrightarrow> handleViewerChange d st = st))"
proof -
  let ?n = "int (length (pages s))"
  let ?i = "activePageIndex st"
  have nx: "handleViewerChange Next st = st\<lparr>activePageIndex := (if ?i = ?n - 1 then 0 else ?i + 1)\<rparr>"
    using assms by (simp add: handleViewerChange_def)
  have pv: "handleViewerChange Prev st = st\<lparr>activePageIndex := (if ?i = 0 then ?n - 1 else ?i - 1)\<rparr>"
    using assms by (simp add: handleViewerChange_def)
  have open_at: "activePageIndex (handleViewerChange Next st) = (?i + 1) mod ?n
      \<and> activePageIndex (handleViewerChange Prev st) = (?i - 1) mod ?n
      \<and> (length (pages s) = 1 \<longrightarrow> handleViewerChange d st = st)"
    if r: "0 \<le> ?i" "?i \<le> ?n - 1"
  proof -
    have m1: "(if ?i = ?n - 1 then 0 else ?i + 1) = (?i + 1) mod ?n"
      using r by (auto simp: mod_pos_pos_trivial)
    have m2: "(if ?i = 0 then ?n - 1 else ?i - 1) = (?i - 1) mod ?n"
    proof (cases "?i = 0")
      case True
      have "0 < ?n" using r by linarith
      then have "(- 1) mod ?n = ?n - 1"
        by (rule zmod_minus1)
      with True show ?thesis by simp
    next
      case False
      with r show ?thesis by (simp add: mod_pos_pos_trivial)
    qed
    have one: "length (pages s) = 1 \<longrightarrow> handleViewerChange d st = st"
    proof
      assume "length (pages s) = 1"
      with r have "?i = 0" "?n = 1" by simp_all
      with assms show "handleViewerChange d st = st"
        by (cases d) (simp_all add: handleViewerChange_def)
    qed
    from nx pv m1 m2 one show ?thesis by simp
  qed
  from nx pv open_at show ?thesis by blast
qed

theorem viewer_navigation_cyclic_witness:
  "activePageIndex (handleViewerChange Next
      ((sample_state ''Tom'' [sample_page 1 ''blob:a'', sample_page 2 ''blob:b'',
          sample_page 3 ''blob:c''])\<lparr>isDialogOpen := True, activePageIndex := 2\<rparr>)) = 0
   \<and> activePageIndex (handleViewerChange Prev
      ((sample_state ''Tom'' [sample_page 1 ''blob:a'', sample_page 2 ''blob:b'',
          sample_page 3 ''blob:c''])\<lparr>isDialogOpen := True\<rparr>)) = 2
   \<and> handleViewerChange Next ((sample_state ''Tom'' [sample_page 1 ''blob:a''])\<lparr>isDialogOpen := True\<rparr>) =
       (sample_state ''Tom'' [sample_page 1 ''blob:a''])\<lparr>isDialogOpen := True\<rparr>"
proof -
  let ?ps = "[sample_page 1 ''blob:a'', sample_page 2 ''blob:b'', sample_page 3 ''blob:c'']"
  let ?a = "(sample_state ''Tom'' ?ps)\<lparr>isDialogOpen := True, activePageIndex := 2\<rparr>"
  let ?b = "(sample_state ''Tom'' ?ps)\<lparr>isDialogOpen := True\<rparr>"
  let ?c = "(sample_state ''Tom'' [sample_page 1 ''blob:a''])\<lparr>isDialogOpen := True\<rparr>"
  have a: "comicSession ?a = Some (sample_session ''Tom'' ?ps)"
    by (simp add: sample_state_def mount_def)
  have b: "comicSession ?b = Some (sample_session ''Tom'' ?ps)"
    by (simp add: sample_state_def mount_def)
  have c: "comicSession ?c = Some (sample_session ''Tom'' [sample_page 1 ''blob:a''])"
    by (simp add: sample_state_def mount_def)
  have r: "0 \<le> activePageIndex ?c"
    "activePageIndex ?c \<le> int (length (pages (sample_session ''Tom'' [sample_page 1 ''blob:a'']))) - 1"
    "length (pages (sample_session ''Tom'' [sample_page 1 ''blob:a''])) = 1"
    by (simp_all add: sample_state_def mount_def sample_session_def)
  have 1: "activePageIndex (handleViewerChange Next ?a) = 0"
    using viewer_navigation_cyclic [OF a]
    by (simp add: sample_state_def mount_def sample_session_def)
  have 2: "activePageIndex (handleViewerChange Prev ?b) = 2"
    using viewer_navigation_cyclic [OF b]
    by (simp add: sample_state_def mount_def sample_session_def)
  have 3: "handleViewerChange Next ?c = ?c"
    using viewer_navigation_cyclic [OF c, of Next] r by blast
  from 1 2 3 show ?thesis by simp
qed

text \<open>
  C7, as amended. When the session becomes null, the effect closes the viewer; when the
  index is above the last position of the session, the effect resets it to 0 and leaves
  the viewer open. Consequently, in every state the page reaches from its mounting, a
  session with pages has the index of the viewer among its positions, provided that no
  page that reaches the page has a page number below 1.
\<close>

theorem viewer_index_in_range:
  assumes "run examples stringify evs (mount session history) = Some st"
    and "session_ok session" and "list_all event_ok evs"
  shows "(comicSession new = None \<and> comicSession old \<noteq> None \<longrightarrow>
            \<not> isDialogOpen (commit old new) \<and> \<not> dialog_open (commit old new))
     \<and> (comicSession cur = Some c \<and> activePageIndex cur > int (length (pages c)) - 1 \<longrightarrow>
            useEffect_body cur = cur\<lparr>activePageIndex := 0\<rparr>)
     \<and> (comicSession st = Some s \<and> pages s \<noteq> [] \<longrightarrow>
            0 \<le> activePageIndex st \<and> activePageIndex st \<le> int (length (pages s)) - 1)"
proof -
  have closed: "comicSession new = None \<and> comicSession old \<noteq> None \<longrightarrow>
      \<not> isDialogOpen (commit old new) \<and> \<not> dialog_open (commit old new)"
    by (auto simp: commit_def useEffect_body_def dialog_open_def)
  have reset: "comicSession cur = Some c \<and> activePageIndex cur > int (length (pages c)) - 1 \<longrightarrow>
      useEffect_body cur = cur\<lparr>activePageIndex := 0\<rparr>"
    by (simp add: useEffect_body_def)
  from mount_inv [OF assms(2)] assms(3,1) have "viewer_inv st"
    by (rule run_inv)
  then have range: "comicSession st = Some s \<and> pages s \<noteq> [] \<longrightarrow>
      0 \<le> activePageIndex st \<and> activePageIndex st \<le> int (length (pages s)) - 1"
    by (auto simp: viewer_inv_def index_in_range_def)
  from closed reset range show ?thesis by blast
qed

theorem viewer_index_in_range_witness:
  "run sample_examples sample_stringify
     [ClickQuickPrompt 0,
      Settled 0 (Inr [sample_page 1 ''blob:a'', sample_page 5 ''blob:b'']) 42 (1 / 2),
      ClickPagePreview 1] (mount None []) =
     Some ((sample_state ''A seed in orbit'' [sample_page 1 ''blob:a'', sample_page 5 ''blob:b''])
       \<lparr>isDialogOpen := True,
        comicSession := Some ((sample_session ''A seed in orbit''
            [sample_page 1 ''blob:a'', sample_page 5 ''blob:b''])
          \<lparr>session_id := js ''42'', gradientFrom := js ''#ffecd2'', gradientTo := js ''#fcb69f''\<rparr>),
        comicHistory := [js ''A seed in orbit''],
        effects := [GenerateComic (js ''A seed in orbit'') One,
          SetComicSession ((sample_session ''A seed in orbit''
              [sample_page 1 ''blob:a'', sample_page 5 ''blob:b''])
            \<lparr>session_id := js ''42'', gradientFrom := js ''#ffecd2'', gradientTo := js ''#fcb69f''\<rparr>),
          AddToComicHistory (js ''A seed in orbit'')]\<rparr>)
   \<and> \<not> isDialogOpen (commit
         ((sample_state ''Tom'' [sample_page 1 ''blob:a''])\<lparr>isDialogOpen := True\<rparr>)
         ((sample_state ''Tom'' [sample_page 1 ''blob:a''])\<lparr>isDialogOpen := True, comicSession := None\<rparr>))
   \<and> useEffect_body
         ((sample_state ''Tom'' [sample_page 1 ''blob:a''])\<lparr>isDialogOpen := True, activePageIndex := 1\<rparr>) =
       (sample_state ''Tom'' [sample_page 1 ''blob:a''])\<lparr>isDialogOpen := True, activePageIndex := 0\<rparr>"
proof -
  let ?evs = "[ClickQuickPrompt 0,
      Settled 0 (Inr [sample_page 1 ''blob:a'', sample_page 5 ''blob:b'']) 42 (1 / 2),
      ClickPagePreview 1]"
  let ?s = "(sample_session ''A seed in orbit'' [sample_page 1 ''blob:a'', sample_page 5 ''blob:b''])
          \<lparr>session_id := js ''42'', gradientFrom := js ''#ffecd2'', gradientTo := js ''#fcb69f''\<rparr>"
  let ?st = "(sample_state ''A seed in orbit'' [sample_page 1 ''blob:a'', sample_page 5 ''blob:b''])
       \<lparr>isDialogOpen := True, comicSession := Some ?s,
        comicHistory := [js ''A seed in orbit''],
        effects := [GenerateComic (js ''A seed in orbit'') One, SetComicSession ?s,
          AddToComicHistory (js ''A seed in orbit'')]\<rparr>"
  let ?old = "(sample_state ''Tom'' [sample_page 1 ''blob:a''])\<lparr>isDialogOpen := True\<rparr>"
  let ?new = "(sample_state ''Tom'' [sample_page 1 ''blob:a''])\<lparr>isDialogOpen := True, comicSession := None\<rparr>"
  let ?cur = "(sample_state ''Tom'' [sample_page 1 ''blob:a''])\<lparr>isDialogOpen := True, activePageIndex := 1\<rparr>"
  let ?c = "sample_session ''Tom'' [sample_page 1 ''blob:a'']"
  have run: "run sample_examples sample_stringify ?evs (mount None []) = Some ?st"
    by (simp add: eval_defs)
  have ok: "session_ok None" "list_all event_ok ?evs"
    by (simp_all add: session_ok_def pages_numbered_def sample_page_def)
  have h1: "comicSession ?new = None \<and> comicSession ?old \<noteq> None"
    by (simp add: sample_state_def mount_def)
  have h2: "comicSession ?cur = Some ?c \<and> activePageIndex ?cur > int (length (pages ?c)) - 1"
    by (simp add: sample_state_def mount_def sample_session_def)
  have h3: "comicSession ?st = Some ?s \<and> pages ?s \<noteq> []"
    by (simp add: sample_session_def)
  from viewer_index_in_range [OF run ok, of ?new ?old ?cur ?c ?s] h1 h2 h3
  have "\<not> isDialogOpen (commit ?old ?new)"
    and "useEffect_body ?cur = ?cur\<lparr>activePageIndex := 0\<rparr>"
    and "0 \<le> activePageIndex ?st \<and> activePageIndex ?st \<le> int (length (pages ?s)) - 1"
    by blast+
  with run show ?thesis by simp
qed

text \<open>
  Without the condition on the page numbers the range does not hold: a preview opens the
  viewer at the page number minus one (line 277), and the effect tests the index against
  the last position only (line 109). With a page numbered 0, the click on its preview
  leaves the index at \<open>- 1\<close> while the session has two pages and the viewer is open.
\<close>

theorem viewer_index_in_range_counterexample:
  "map_option activePageIndex
     (run sample_examples sample_stringify
        [ClickQuickPrompt 0,
         Settled 0 (Inr [sample_page 0 ''blob:a'', sample_page 1 ''blob:b'']) 42 (1 / 2),
         ClickPagePreview 0] (mount None [])) = Some (- 1)
   \<and> map_option isDialogOpen
     (run sample_examples sample_stringify
        [ClickQuickPrompt 0,
         Settled 0 (Inr [sample_page 0 ''blob:a'', sample_page 1 ''blob:b'']) 42 (1 / 2),
         ClickPagePreview 0] (mount None [])) = Some True
   \<and> map_option comicSession
     (run sample_examples sample_stringify
        [ClickQuickPrompt 0,
         Settled 0 (Inr [sample_page 0 ''blob:a'', sample_page 1 ''blob:b'']) 42 (1 / 2),
         ClickPagePreview 0] (mount None [])) =
     Some (Some \<lparr>session_id = js ''42'', storyIdea = js ''A seed in orbit'',
       pagesRequested = One, pages = [sample_page 0 ''blob:a'', sample_page 1 ''blob:b''],
       gradientFrom = js ''#ffecd2'', gradientTo = js ''#fcb69f''\<rparr>)"
  by (simp add: eval_defs)

section \<open>Generation while a call is in flight\<close>

text \<open>
  \<open>handleGenerate\<close> does not read the busy flag. The button of the form is disabled
  while the flag is set, but the quick prompts of the spotlight card are not, and they
  call \<open>handleGenerate\<close> with a prompt of their own.
\<close>

lemma generator_calls_append:
  "generator_calls (xs @ ys) = generator_calls xs @ generator_calls ys"
  by (induction xs rule: generator_calls.induct) simp_all

lemma handleGenerate_ignores_busy:
  assumes "trim prompt \<noteq> []"
  shows "generator_calls (effects (handleGenerate (Some prompt) None st)) =
           generator_calls (effects st) @ [(trim prompt, st_pagesRequested st)]"
  using assms by (simp add: handleGenerate_def Let_def generator_calls_append)

lemma generate_button_disabled_while_busy:
  "isGenerating st \<Longrightarrow> fire examples stringify ClickGenerate st = None"
  by (simp add: fire_def)

lemma revoked_releaseSessionResources:
  "revoked (releaseSessionResources (Some s)) =
     filter (\<lambda>u. startsWith u (js ''blob:'')) (map imageUrl (pages s))"
proof -
  have "revoked (map RevokeObjectURL us) = us" for us
    by (induction us) simp_all
  then show ?thesis by (simp add: releaseSessionResources_def)
qed

lemma revoked_append: "revoked (xs @ ys) = revoked xs @ revoked ys"
  by (induction xs rule: revoked.induct) simp_all

lemma release_before_install:
  assumes "0 \<le> rnd" and "rnd < 1" and "p_comicSession p = Some old"
  shows "\<exists>new. pages new = comic \<and>
     effects (handleGenerate_resume p (Inr comic) now rnd st) =
       effects st @
       map RevokeObjectURL (filter (\<lambda>u. startsWith u (js ''blob:'')) (map imageUrl (pages old))) @
       [SetComicSession new, AddToComicHistory (p_story p)]"
proof -
  from resume_success [OF assms(1,2), of p comic now st] obtain g where
    "handleGenerate_resume p (Inr comic) now rnd st =
       st\<lparr>isGenerating := False,
          comicSession := Some \<lparr>session_id = decimal now, storyIdea = p_story p,
            pagesRequested = p_count p, pages = comic, gradientFrom = fst g, gradientTo = snd g\<rparr>,
          comicHistory := comicHistory st @ [p_story p],
          st_storyIdea := [],
          activePageIndex := 0,
          effects := effects st @ releaseSessionResources (p_comicSession p) @
            [SetComicSession \<lparr>session_id = decimal now, storyIdea = p_story p,
               pagesRequested = p_count p, pages = comic, gradientFrom = fst g, gradientTo = snd g\<rparr>,
             AddToComicHistory (p_story p)]\<rparr>"
    by blast
  then show ?thesis
    using assms(3) by (simp add: releaseSessionResources_def)
qed

text \<open>
  C1 does not hold of the code. After a click on a quick prompt the busy flag is set; a
  second click on it, before the generator has answered, calls the generator a second
  time, so that two calls are in flight; and when both have succeeded the history holds
  the prompt twice.
\<close>

theorem busy_trigger_calls_generator_again:
  "map_option isGenerating
     (run sample_examples sample_stringify [ClickQuickPrompt 0] (mount None [])) = Some True
   \<and> map_option (\<lambda>st. generator_calls (effects st))
       (run sample_examples sample_stringify [ClickQuickPrompt 0, ClickQuickPrompt 0]
          (mount None [])) =
       Some [(js ''A seed in orbit'', One), (js ''A seed in orbit'', One)]
   \<and> map_option (\<lambda>st. length (inflight st))
       (run sample_examples sample_stringify [ClickQuickPrompt 0, ClickQuickPrompt 0]
          (mount None [])) = Some 2
   \<and> map_option (\<lambda>st. (history_calls (effects st), comicHistory st))
       (run sample_examples sample_stringify
          [ClickQuickPrompt 0, ClickQuickPrompt 0,
           Settled 0 (Inr [sample_page 1 ''blob:a'']) 1 0,
           Settled 0 (Inr [sample_page 1 ''blob:b'']) 2 0]
          (mount None [])) =
       Some ([js ''A seed in orbit'', js ''A seed in orbit''],
             [js ''A seed in orbit'', js ''A seed in orbit''])"
  by (simp add: eval_defs)

text \<open>
  C3 does not hold of the code. Two clicks on a quick prompt make two calls while the
  session is the old one (with the image \<^verbatim>\<open>blob:old\<close>), and each call releases the
  session it saw when it was made. When the first has installed its session (with the
  image \<^verbatim>\<open>blob:a\<close>), the second replaces that session without releasing \<^verbatim>\<open>blob:a\<close>, and
  releases \<^verbatim>\<open>blob:old\<close> a second time. When no other generation has answered in between,
  the session released is the one replaced, and the releases come before the
  installation (lemma \<open>release_before_install\<close>).
\<close>

theorem overlapping_generations_release_stale_session:
  "map_option (\<lambda>st. (map_option (\<lambda>s. map imageUrl (pages s)) (comicSession st),
                      revoked (effects st)))
     (run sample_examples sample_stringify
        [ClickQuickPrompt 0, ClickQuickPrompt 0,
         Settled 0 (Inr [sample_page 1 ''blob:a'']) 1 0]
        (sample_state ''Old'' [sample_page 1 ''blob:old''])) =
     Some (Some [js ''blob:a''], [js ''blob:old''])
   \<and> map_option (\<lambda>st. (map_option (\<lambda>s. map imageUrl (pages s)) (comicSession st),
                      revoked (effects st)))
     (run sample_examples sample_stringify
        [ClickQuickPrompt 0, ClickQuickPrompt 0,
         Settled 0 (Inr [sample_page 1 ''blob:a'']) 1 0,
         Settled 0 (Inr [sample_page 1 ''blob:b'']) 2 0]
        (sample_state ''Old'' [sample_page 1 ''blob:old''])) =
     Some (Some [js ''blob:b''], [js ''blob:old'', js ''blob:old''])"
  by (simp add: eval_defs)

end
